theory Spec2Isabelle
  imports Complex_Main "HOL-Library.Multiset"
begin

section \<open>Data model\<close>

text \<open>
  The program reads a table of orders, reduces it to one row per customer holding the
  Recency, Frequency and Monetary metrics (\<open>rfm\<close>), adds three quintile scores to every
  row, labels every row with a segment and computes revenue roll-ups.

  One order row of the uploaded table. Every field is present (no missing cells);
  \<open>order_date\<close> is the parsed timestamp, held as a count of nanoseconds, and
  \<open>order_value\<close> is a whole amount, held as a mathematical integer.
\<close>

record ('u, 'o) order_record =
  user_id :: 'u
  order_id :: 'o
  order_date :: int
  product_name :: string
  order_value :: int
  discount_given :: int

text \<open>The aggregated frame after its columns are renamed, one row per customer.\<close>

record 'u rfm_row =
  rfm_user_id :: 'u
  Recency :: int
  Frequency :: int
  Monetary :: int

text \<open>The frame after the three score columns are added.\<close>

record 'u scored_row = "'u rfm_row" +
  R_Score :: int
  F_Score :: int
  M_Score :: int

datatype segment_label = Champion | Loyal | Fence_Sitter | At_Risk | Churned

text \<open>The frame after the \<open>Segment\<close> column is added.\<close>

record 'u segment_row = "'u scored_row" +
  Segment :: segment_label

section \<open>Metric aggregation\<close>

text \<open>
  A difference of two timestamps is a count of nanoseconds; its \<open>days\<close> component is
  the number of whole days, rounded towards minus infinity.
\<close>

definition ns_per_day :: int where
  "ns_per_day = 86400000000000"

definition days :: "int \<Rightarrow> int" where
  "days td = td div ns_per_day"

text \<open>The maximum of a column of a group; a group always has at least one row.\<close>

definition series_max :: "int list \<Rightarrow> int" where
  "series_max xs = fold max (tl xs) (hd xs)"

text \<open>
  Grouping by \<open>user_id\<close>: the keys are the distinct customer identifiers in ascending
  order, and the group of a key holds the order rows of that customer, in table order.
\<close>

definition group_keys :: "('u::linorder, 'o) order_record list \<Rightarrow> 'u list" where
  "group_keys df = sort (remdups (map user_id df))"

definition group_rows :: "('u, 'o) order_record list \<Rightarrow> 'u \<Rightarrow> ('u, 'o) order_record list" where
  "group_rows df k = filter (\<lambda>r. user_id r = k) df"

text \<open>
  The aggregation: per group, the days between the analysis date and the latest order,
  the count of the \<open>order_id\<close> cells and the sum of the \<open>order_value\<close> cells.
\<close>

definition rfm :: "('u::linorder, 'o) order_record list \<Rightarrow> int \<Rightarrow> 'u rfm_row list" where
  "rfm df snapshot_date =
     map (\<lambda>k. let g = group_rows df k in
            \<lparr>rfm_user_id = k,
             Recency = days (snapshot_date - series_max (map order_date g)),
             Frequency = int (length (map order_id g)),
             Monetary = sum_list (map order_value g)\<rparr>)
         (group_keys df)"

section \<open>Percentile scoring\<close>

text \<open>
  The scoring calls two routines of the data-frame library, \<open>rank(method="first")\<close> and
  \<open>qcut\<close>. They are written out here as the library documents them, in exact rational
  arithmetic: the library computes the bin edges in binary floating point, whose
  rounding is outside this model.

  \<open>rank_first\<close>: the rank of a cell is its position in ascending order, counted from 1,
  where equal cells are ranked in the order in which they appear in the column.
\<close>

definition rank_first :: "int list \<Rightarrow> int list" where
  "rank_first xs =
     map (\<lambda>i. 1 + int (length (filter (\<lambda>y. y < xs ! i) xs))
                + int (length (filter (\<lambda>y. y = xs ! i) (take i xs))))
         [0..<length xs]"

text \<open>
  Linear interpolation in a sorted column \<open>s\<close> at the position \<open>p / q\<close>: the position is
  split into its whole part \<open>lo\<close> and its fraction \<open>r / q\<close>, and the result lies that
  fraction of the way from cell \<open>lo\<close> to cell \<open>lo + 1\<close>. At a whole position the result is
  the cell itself (the last cell has no right neighbour).
\<close>

definition interpolate :: "int list \<Rightarrow> nat \<Rightarrow> nat \<Rightarrow> rat" where
  "interpolate s q p =
     (let lo = p div q; r = p mod q
      in if r = 0 then of_int (s ! lo)
         else of_int (s ! lo) + (of_nat r / of_nat q) * of_int (s ! (lo + 1) - s ! lo))"

text \<open>
  \<open>quantile xs q k\<close> is the quantile of \<open>xs\<close> at the fraction \<open>k / q\<close>: the sorted column
  read at the position \<open>(n - 1) * k / q\<close>.
\<close>

definition quantile :: "int list \<Rightarrow> nat \<Rightarrow> nat \<Rightarrow> rat" where
  "quantile xs q k = interpolate (sort xs) q ((length xs - 1) * k)"

text \<open>
  Bin search with \<open>side = "left"\<close> in an ascending list of edges: the number of edges
  strictly below the value.
\<close>

definition searchsorted_left :: "rat list \<Rightarrow> rat \<Rightarrow> nat" where
  "searchsorted_left bins v = length (filter (\<lambda>b. b < v) bins)"

text \<open>
  The label of one cell: bins are open on the left and closed on the right, a cell equal
  to the lowest edge belongs to the first bin, and a cell outside every bin gets no
  label (a missing value).
\<close>

definition bin_index :: "rat list \<Rightarrow> int \<Rightarrow> nat" where
  "bin_index bins v =
     (if of_int v = bins ! 0 then 1 else searchsorted_left bins (of_int v))"

definition bins_to_cut :: "rat list \<Rightarrow> int list \<Rightarrow> int \<Rightarrow> int option" where
  "bins_to_cut bins labels v =
     (let ids = bin_index bins v
      in if ids = 0 \<or> ids = length bins then None else Some (labels ! (ids - 1)))"

datatype error =
    Bin_edges_must_be_unique
  | Bin_labels_must_be_one_fewer
  | Cannot_convert_NaN_to_integer

text \<open>
  \<open>qcut x q labels\<close>: the \<open>q + 1\<close> edges are the quantiles at \<open>0, 1/q, \<dots>, 1\<close>; edges that
  coincide are refused (an empty column has no quantiles and is refused the same way).
\<close>

definition qcut :: "int list \<Rightarrow> nat \<Rightarrow> int list \<Rightarrow> error + int option list" where
  "qcut x q labels =
     (if x = [] then Inl Bin_edges_must_be_unique
      else let bins = map (quantile x q) [0..<q + 1]
        in if \<not> distinct bins then Inl Bin_edges_must_be_unique
           else if length labels \<noteq> length bins - 1 then Inl Bin_labels_must_be_one_fewer
           else Inr (map (bins_to_cut bins labels) x))"


text \<open>The cast of a labelled column to integers fails on a missing value.\<close>

definition astype_int :: "int option list \<Rightarrow> error + int list" where
  "astype_int col =
     (if None \<in> set col then Inl Cannot_convert_NaN_to_integer else Inr (map the col))"

definition score_column :: "int list \<Rightarrow> int list \<Rightarrow> error + int list" where
  "score_column x labels =
     (case qcut x 5 labels of Inl e \<Rightarrow> Inl e | Inr col \<Rightarrow> astype_int col)"

definition with_scores :: "'u rfm_row \<Rightarrow> int \<Rightarrow> int \<Rightarrow> int \<Rightarrow> 'u scored_row" where
  "with_scores row r f m =
     \<lparr>rfm_user_id = rfm_user_id row, Recency = Recency row, Frequency = Frequency row,
      Monetary = Monetary row, R_Score = r, F_Score = f, M_Score = m\<rparr>"

text \<open>
  The three score columns, computed in the order of the source; the first failure ends
  the run. Recency is binned on its raw value with the labels reversed, Frequency and
  Monetary on their first-occurrence ranks.
\<close>

definition add_scores :: "'u rfm_row list \<Rightarrow> error + 'u scored_row list" where
  "add_scores frame =
     (case score_column (map Recency frame) [5, 4, 3, 2, 1] of
        Inl e \<Rightarrow> Inl e
      | Inr rs \<Rightarrow>
     (case score_column (rank_first (map Frequency frame)) [1, 2, 3, 4, 5] of
        Inl e \<Rightarrow> Inl e
      | Inr fs \<Rightarrow>
     (case score_column (rank_first (map Monetary frame)) [1, 2, 3, 4, 5] of
        Inl e \<Rightarrow> Inl e
      | Inr ms \<Rightarrow>
          Inr (map (\<lambda>i. with_scores (frame ! i) (rs ! i) (fs ! i) (ms ! i))
                   [0..<length frame]))))"

section \<open>Segmentation\<close>

text \<open>The row-wise classifier: an \<open>if\<close>/\<open>elif\<close> chain over the three score columns.\<close>

definition segment :: "('u, 'x) scored_row_scheme \<Rightarrow> segment_label" where
  "segment row =
     (if R_Score row \<ge> 4 \<and> F_Score row \<ge> 4 \<and> M_Score row \<ge> 4 then Champion
      else if F_Score row \<ge> 4 \<and> R_Score row \<ge> 3 then Loyal
      else if R_Score row \<ge> 3 then Fence_Sitter
      else if R_Score row = 2 then At_Risk
      else Churned)"

definition with_segment :: "'u scored_row \<Rightarrow> 'u segment_row" where
  "with_segment row =
     \<lparr>rfm_user_id = rfm_user_id row, Recency = Recency row, Frequency = Frequency row,
      Monetary = Monetary row, R_Score = R_Score row, F_Score = F_Score row,
      M_Score = M_Score row, Segment = segment row\<rparr>"

definition add_segment :: "'u scored_row list \<Rightarrow> 'u segment_row list" where
  "add_segment frame = map with_segment frame"

section \<open>Key figures\<close>

text \<open>
  The sums of a column are numeric scalars of the array library: dividing one by
  another raises nothing. A zero divisor gives not-a-number for a zero dividend and an
  infinity otherwise, and every comparison with not-a-number is false.
\<close>

datatype np_float = Finite rat | PosInf | NegInf | NaN

definition true_divide :: "int \<Rightarrow> int \<Rightarrow> np_float" where
  "true_divide a b =
     (if b = 0 then (if a = 0 then NaN else if a > 0 then PosInf else NegInf)
      else Finite (of_int a / of_int b))"

fun np_greater :: "np_float \<Rightarrow> rat \<Rightarrow> bool" where
  "np_greater (Finite a) c = (a > c)"
| "np_greater PosInf c = True"
| "np_greater NegInf c = False"
| "np_greater NaN c = False"

text \<open>The sum of \<open>Monetary\<close> over the rows whose segment is one of the given labels.\<close>

definition segment_revenue :: "segment_label set \<Rightarrow> 'u segment_row list \<Rightarrow> int" where
  "segment_revenue labels frame =
     sum_list (map Monetary (filter (\<lambda>row. Segment row \<in> labels) frame))"

record kpi =
  total_customers :: nat
  total_revenue :: int
  champion_revenue :: int
  at_risk_revenue :: int
  revenue_dependency :: np_float
  high_dependency :: bool
  high_risk :: bool

definition kpis :: "'u segment_row list \<Rightarrow> kpi" where
  "kpis frame =
     (let total = sum_list (map Monetary frame);
          champion = segment_revenue {Champion} frame;
          at_risk = segment_revenue {At_Risk, Churned} frame;
          dependency = true_divide champion total
      in \<lparr>total_customers = length frame,
          total_revenue = total,
          champion_revenue = champion,
          at_risk_revenue = at_risk,
          revenue_dependency = dependency,
          high_dependency = np_greater dependency (1 / 2),
          high_risk = (of_int at_risk > (of_int champion :: rat) * (1 / 2))\<rparr>)"

section \<open>The whole run\<close>

record 'u analysis =
  metrics :: "'u rfm_row list"
  segments :: "'u segment_row list"
  figures :: kpi

definition run :: "('u::linorder, 'o) order_record list \<Rightarrow> int \<Rightarrow> error + 'u analysis" where
  "run df snapshot_date =
     (let frame = rfm df snapshot_date
      in case add_scores frame of
           Inl e \<Rightarrow> Inl e
         | Inr scored \<Rightarrow>
             (let labelled = add_segment scored
              in Inr \<lparr>metrics = frame, segments = labelled, figures = kpis labelled\<rparr>))"

section \<open>Example tables\<close>

text \<open>An order of customer \<open>u\<close>, placed \<open>d\<close> days after the epoch, of value \<open>v\<close>.\<close>

definition order_on :: "nat \<Rightarrow> int \<Rightarrow> int \<Rightarrow> (nat, nat) order_record" where
  "order_on u d v =
     \<lparr>user_id = u, order_id = u, order_date = d * 86400000000000,
      product_name = ''item'', order_value = v, discount_given = 0\<rparr>"

definition day :: "int \<Rightarrow> int" where
  "day d = d * 86400000000000"

text \<open>Three orders of two customers; the second customer ordered last.\<close>

definition df0 :: "(nat, nat) order_record list" where
  "df0 = [\<lparr>user_id = 2, order_id = 10, order_date = 3 * 86400000000000, product_name = ''tea'',
           order_value = 20, discount_given = 5\<rparr>,
          \<lparr>user_id = 1, order_id = 11, order_date = 4 * 86400000000000 + 7, product_name = ''rice'',
           order_value = 30, discount_given = 0\<rparr>,
          \<lparr>user_id = 2, order_id = 10, order_date = 86400000000000, product_name = ''tea'',
           order_value = 25, discount_given = 1\<rparr>]"

text \<open>
  Ten customers with Recency 1 to 10 days, Frequency 3 throughout and Monetary
  100, 100, 200, 200, \<dots>, 500, 500, and the frame that scoring makes of them.
\<close>

definition metrics_row :: "nat \<Rightarrow> int \<Rightarrow> int \<Rightarrow> int \<Rightarrow> nat rfm_row" where
  "metrics_row u r f m = \<lparr>rfm_user_id = u, Recency = r, Frequency = f, Monetary = m\<rparr>"





text \<open>
  Orders of five customers on five different days: with the values 10 to 50, and with
  the value 0 throughout. Orders of four customers on four different days. Orders of
  six customers, all on the same day.
\<close>

definition five_orders :: "(nat, nat) order_record list" where
  "five_orders =
     [order_on 1 1 10, order_on 2 2 20, order_on 3 3 30, order_on 4 4 40, order_on 5 5 50]"




text \<open>The results of the run on the first two tables, with the analysis date on day 10.\<close>

definition labelled_row ::
  "nat \<Rightarrow> int \<Rightarrow> int \<Rightarrow> int \<Rightarrow> int \<Rightarrow> int \<Rightarrow> int \<Rightarrow> segment_label \<Rightarrow> nat segment_row" where
  "labelled_row u r f m rs fs ms seg =
     \<lparr>rfm_user_id = u, Recency = r, Frequency = f, Monetary = m,
      R_Score = rs, F_Score = fs, M_Score = ms, Segment = seg\<rparr>"

definition five_analysis :: "nat analysis" where
  "five_analysis =
     \<lparr>metrics = [metrics_row 1 9 1 10, metrics_row 2 8 1 20, metrics_row 3 7 1 30,
                 metrics_row 4 6 1 40, metrics_row 5 5 1 50],
      segments = [labelled_row 1 9 1 10 1 1 1 Churned, labelled_row 2 8 1 20 2 2 2 At_Risk,
                  labelled_row 3 7 1 30 3 3 3 Fence_Sitter, labelled_row 4 6 1 40 4 4 4 Champion,
                  labelled_row 5 5 1 50 5 5 5 Champion],
      figures = \<lparr>total_customers = 5, total_revenue = 150, champion_revenue = 90,
                  at_risk_revenue = 30, revenue_dependency = Finite (3 / 5),
                  high_dependency = True, high_risk = False\<rparr>\<rparr>"


text \<open>The first table with other product names and discounts.\<close>

definition five_orders_relabelled :: "(nat, nat) order_record list" where
  "five_orders_relabelled =
     map (\<lambda>r. r\<lparr>product_name := ''other'', discount_given := 7\<rparr>) five_orders"

section \<open>Properties of the segment classifier\<close>

text \<open>
  C1. For scores between 1 and 5 the classifier returns the label of the first rule
  that matches, in the order Champion, Loyal, Fence Sitter, At Risk, Churned. Read rule
  by rule: Champion exactly when all three scores are at least 4; Loyal exactly when
  R is at least 3, F at least 4 and the row is not a Champion; Fence Sitter exactly when
  R is at least 3 and F is below 4; At Risk exactly when R is 2; Churned exactly when
  R is 1, whatever F and M are. Two rows with the same three scores get the same label.
\<close>

theorem segment_first_match:
  fixes row :: "('u, 'x) scored_row_scheme" and row' :: "('v, 'y) scored_row_scheme"
  assumes "R_Score row \<in> {1..5}" and "F_Score row \<in> {1..5}" and "M_Score row \<in> {1..5}"
  shows "(segment row = Champion \<longleftrightarrow>
            R_Score row \<ge> 4 \<and> F_Score row \<ge> 4 \<and> M_Score row \<ge> 4)
       \<and> (segment row = Loyal \<longleftrightarrow>
            \<not> (R_Score row \<ge> 4 \<and> F_Score row \<ge> 4 \<and> M_Score row \<ge> 4)
            \<and> F_Score row \<ge> 4 \<and> R_Score row \<ge> 3)
       \<and> (segment row = Fence_Sitter \<longleftrightarrow> F_Score row < 4 \<and> R_Score row \<ge> 3)
       \<and> (segment row = At_Risk \<longleftrightarrow> R_Score row = 2)
       \<and> (segment row = Churned \<longleftrightarrow> R_Score row = 1)
       \<and> (R_Score row = 1 \<longrightarrow> segment row = Churned)
       \<and> (R_Score row' = R_Score row \<and> F_Score row' = F_Score row
            \<and> M_Score row' = M_Score row \<longrightarrow> segment row' = segment row)"
  using assms unfolding segment_def by auto

theorem segment_first_match_witness:
  "segment \<lparr>rfm_user_id = (7::nat), Recency = 40, Frequency = 9, Monetary = 900,
            R_Score = 1, F_Score = 5, M_Score = 5\<rparr> = Churned
   \<and> segment \<lparr>rfm_user_id = (8::nat), Recency = 2, Frequency = 9, Monetary = 900,
            R_Score = 3, F_Score = 5, M_Score = 5\<rparr> = Loyal"
  using segment_first_match
          [of "\<lparr>rfm_user_id = (7::nat), Recency = 40, Frequency = 9, Monetary = 900,
                R_Score = 1, F_Score = 5, M_Score = 5\<rparr>"
              "\<lparr>rfm_user_id = (7::nat), Recency = 40, Frequency = 9, Monetary = 900,
                R_Score = 1, F_Score = 5, M_Score = 5\<rparr>"]
        segment_first_match
          [of "\<lparr>rfm_user_id = (8::nat), Recency = 2, Frequency = 9, Monetary = 900,
                R_Score = 3, F_Score = 5, M_Score = 5\<rparr>"
              "\<lparr>rfm_user_id = (8::nat), Recency = 2, Frequency = 9, Monetary = 900,
                R_Score = 3, F_Score = 5, M_Score = 5\<rparr>"]
  by simp

section \<open>Properties of the metric aggregation\<close>

lemma fold_max_Max: "fold max xs (x::int) = Max (insert x (set xs))"
  by (metis Max.set_eq_fold list.simps(15))

lemma series_max_Max: "xs \<noteq> [] \<Longrightarrow> series_max xs = Max (set xs)"
  unfolding series_max_def by (cases xs) (simp_all add: fold_max_Max)

lemma set_group_keys: "set (group_keys df) = user_id ` set df"
  by (simp add: group_keys_def)


lemma map_rfm_user_id: "map rfm_user_id (rfm df s) = group_keys df"
  by (simp add: rfm_def Let_def comp_def)

lemma length_rfm: "length (rfm df s) = length (group_keys df)"
  by (simp add: rfm_def)

lemma group_rows_nonempty: "k \<in> set (group_keys df) \<Longrightarrow> group_rows df k \<noteq> []"
  by (auto simp: set_group_keys group_rows_def filter_empty_conv)

lemma order_date_group:
  "order_date ` set (group_rows df k) = {order_date r | r. r \<in> set df \<and> user_id r = k}"
  by (auto simp: group_rows_def)


lemma rfm_row_of_key:
  assumes "row \<in> set (rfm df s)"
  shows "rfm_user_id row \<in> set (group_keys df)
       \<and> Recency row = days (s - series_max (map order_date (group_rows df (rfm_user_id row))))
       \<and> Frequency row = int (length (group_rows df (rfm_user_id row)))
       \<and> Monetary row = sum_list (map order_value (group_rows df (rfm_user_id row)))"
  using assms by (auto simp: rfm_def Let_def)




text \<open>
  C7, as stated, fails: with the analysis date two days after the epoch and orders on
  later days, the aggregation returns rows whose Recency is negative. The aggregation
  has no failure path.
\<close>

theorem negative_recency_counterexample:
  "rfm df0 (2 * 86400000000000) =
     [\<lparr>rfm_user_id = 1, Recency = - 3, Frequency = 1, Monetary = 30\<rparr>,
      \<lparr>rfm_user_id = 2, Recency = - 1, Frequency = 2, Monetary = 45\<rparr>]"
  by code_simp

text \<open>
  C7, amended. When the analysis date precedes an order of a customer, the aggregation
  still returns the row of that customer, and its Recency is the (negative) whole
  number of days from the latest order date to the analysis date, rounded down; it is
  neither rejected nor clamped.
\<close>

theorem rfm_negative_recency:
  fixes df :: "('u::linorder, 'o) order_record list"
  assumes "r \<in> set df" and "snapshot_date < order_date r"
  shows "\<exists>row \<in> set (rfm df snapshot_date).
           rfm_user_id row = user_id r
         \<and> Recency row = (snapshot_date
              - Max {order_date r' | r'. r' \<in> set df \<and> user_id r' = user_id r}) div 86400000000000
         \<and> Recency row < 0"
proof -
  have "user_id r \<in> set (map rfm_user_id (rfm df snapshot_date))"
    using assms(1) by (simp only: map_rfm_user_id set_group_keys) simp
  then obtain row where row: "row \<in> set (rfm df snapshot_date)" and u: "rfm_user_id row = user_id r"
    by auto
  let ?D = "{order_date r' | r'. r' \<in> set df \<and> user_id r' = user_id r}"
  have fin: "finite ?D" by simp
  have "order_date r \<in> ?D" using assms(1) by auto
  then have "order_date r \<le> Max ?D" using fin by (rule Max_ge [rotated])
  then have neg: "snapshot_date - Max ?D < 0" using assms(2) by simp
  have rec: "Recency row = (snapshot_date - Max ?D) div 86400000000000"
    using rfm_row_of_key [OF row] u group_rows_nonempty [of "user_id r" df]
      series_max_Max [of "map order_date (group_rows df (user_id r))"]
    by (simp add: days_def ns_per_day_def order_date_group)
  have "Recency row < 0" unfolding rec using neg by (simp add: div_neg_pos_less0)
  with row u rec show ?thesis by blast
qed

theorem rfm_negative_recency_witness:
  "df0 ! 1 \<in> set df0 \<and> 2 * 86400000000000 < order_date (df0 ! 1)
   \<and> (\<exists>row \<in> set (rfm df0 (2 * 86400000000000)).
         rfm_user_id row = user_id (df0 ! 1) \<and> Recency row < 0)"
proof -
  have a: "df0 ! 1 \<in> set df0" by (simp add: df0_def)
  have b: "2 * 86400000000000 < order_date (df0 ! 1)" by (simp add: df0_def)
  from rfm_negative_recency [OF a b] show ?thesis using a b by blast
qed

section \<open>Properties of the percentile scoring\<close>

subsection \<open>Interpolation in a sorted column\<close>

lemma interpolate_whole: "p mod q = 0 \<Longrightarrow> interpolate s q p = of_int (s ! (p div q))"
  by (simp add: interpolate_def Let_def)

lemma interpolate_between:
  assumes "p mod q \<noteq> 0"
  shows "interpolate s q p
           = of_int (s ! (p div q))
             + (of_nat (p mod q) / of_nat q) * of_int (s ! (p div q + 1) - s ! (p div q))"
  using assms by (simp add: interpolate_def Let_def)

lemma fraction_bounds:
  assumes "0 < q" "p mod q \<noteq> 0"
  shows "0 < (of_nat (p mod q) / of_nat q :: rat)" "(of_nat (p mod q) / of_nat q :: rat) < 1"
  using assms by simp_all

lemma lerp_bounds:
  fixes a b t :: rat
  assumes "0 \<le> t" "t \<le> 1" "a \<le> b"
  shows "a \<le> a + t * (b - a)" "a + t * (b - a) \<le> b"
proof -
  show "a \<le> a + t * (b - a)" using assms by simp
  have "t * (b - a) \<le> 1 * (b - a)" using assms by (intro mult_right_mono) simp_all
  then show "a + t * (b - a) \<le> b" by simp
qed


lemma interpolate_lower:
  assumes "sorted s" "0 < q" "p div q + 1 < length s \<or> p mod q = 0"
  shows "of_int (s ! (p div q)) \<le> interpolate s q p"
proof (cases "p mod q = 0")
  case True then show ?thesis by (simp add: interpolate_whole)
next
  case False
  with assms have lt: "p div q + 1 < length s" by simp
  have le: "s ! (p div q) \<le> s ! (p div q + 1)"
    using assms(1) lt by (simp add: sorted_nth_mono)
  have "(of_int (s ! (p div q)) :: rat) \<le> of_int (s ! (p div q + 1))" using le by simp
  from lerp_bounds(1) [OF _ _ this, of "of_nat (p mod q) / of_nat q"] fraction_bounds [OF assms(2) False]
  show ?thesis by (simp add: interpolate_between [OF False])
qed

lemma interpolate_upper:
  assumes "sorted s" "0 < q" "p div q + 1 < length s"
  shows "interpolate s q p \<le> of_int (s ! (p div q + 1))"
proof (cases "p mod q = 0")
  case True
  have "s ! (p div q) \<le> s ! (p div q + 1)"
    using assms by (simp add: sorted_nth_mono)
  then show ?thesis using True by (simp add: interpolate_whole)
next
  case False
  have le: "s ! (p div q) \<le> s ! (p div q + 1)"
    using assms by (simp add: sorted_nth_mono)
  have "(of_int (s ! (p div q)) :: rat) \<le> of_int (s ! (p div q + 1))" using le by simp
  from lerp_bounds(2) [OF _ _ this, of "of_nat (p mod q) / of_nat q"] fraction_bounds [OF assms(2) False]
  show ?thesis by (simp add: interpolate_between [OF False])
qed


lemma same_cell_mono:
  fixes a b :: rat
  assumes "a \<le> b" "0 < q" "(r::nat) \<le> r'"
  shows "a + (of_nat r / of_nat q) * (b - a) \<le> a + (of_nat r' / of_nat q) * (b - a)"
proof -
  have "(of_nat r / of_nat q :: rat) \<le> of_nat r' / of_nat q"
    using assms by (simp add: divide_right_mono)
  then have "(of_nat r / of_nat q) * (b - a) \<le> (of_nat r' / of_nat q) * (b - a)"
    using assms(1) by (intro mult_right_mono) simp_all
  then show ?thesis by simp
qed


lemma interpolate_form:
  "interpolate s q p
     = of_int (s ! (p div q))
       + (of_nat (p mod q) / of_nat q) * (of_int (s ! (p div q + 1)) - of_int (s ! (p div q)))"
  by (simp add: interpolate_def Let_def)

lemma interpolate_mono:
  assumes s: "sorted s" and q: "0 < q" and le: "p \<le> p'"
    and p': "p' div q + 1 < length s \<or> (p' mod q = 0 \<and> p' div q < length s)"
  shows "interpolate s q p \<le> interpolate s q p'"
proof (cases "p div q = p' div q")
  case True
  have r: "p mod q \<le> p' mod q"
    using le True by (metis add_le_cancel_left mult_div_mod_eq)
  show ?thesis
  proof (cases "p' mod q = 0")
    case z: True
    then have "p mod q = 0" using r by simp
    then show ?thesis using z True by (simp add: interpolate_whole)
  next
    case False
    with p' have lt: "p' div q + 1 < length s" by simp
    have "s ! (p' div q) \<le> s ! (p' div q + 1)" using s lt by (simp add: sorted_nth_mono)
    then have "(of_int (s ! (p' div q)) :: rat) \<le> of_int (s ! (p' div q + 1))" by simp
    from same_cell_mono [OF this q r] show ?thesis
      by (simp add: interpolate_form True)
  qed
next
  case False
  have "p div q \<le> p' div q" using le by (simp add: div_le_mono)
  with False have lt: "p div q + 1 \<le> p' div q" by simp
  have len: "p' div q < length s" using p' by auto
  have "interpolate s q p \<le> of_int (s ! (p div q + 1))"
    using interpolate_upper [OF s q] lt len by simp
  also have "\<dots> \<le> of_int (s ! (p' div q))"
    using s lt len by (simp add: sorted_nth_mono)
  also have "\<dots> \<le> interpolate s q p'"
    using interpolate_lower [OF s q, of p'] p' by auto
  finally show ?thesis .
qed


subsection \<open>Quantiles of a column\<close>

lemma sorted_first_Min:
  fixes s :: "int list"
  assumes "sorted s" "s \<noteq> []"
  shows "s ! 0 = Min (set s)"
proof -
  have len: "0 < length s" using assms(2) by simp
  have "Min (set s) = s ! 0"
  proof (rule Min_eqI)
    show "finite (set s)" by simp
    show "s ! 0 \<in> set s" using len by (rule nth_mem)
    fix y assume "y \<in> set s"
    then obtain i where "i < length s" "y = s ! i"
      by (auto simp: in_set_conv_nth)
    then show "s ! 0 \<le> y"
      using sorted_nth_mono [OF assms(1), of 0 i] by simp
  qed
  then show ?thesis by simp
qed

lemma sorted_last_Max:
  fixes s :: "int list"
  assumes "sorted s" "s \<noteq> []"
  shows "s ! (length s - 1) = Max (set s)"
proof -
  have len: "length s - 1 < length s" using assms(2) by simp
  have "Max (set s) = s ! (length s - 1)"
  proof (rule Max_eqI)
    show "finite (set s)" by simp
    show "s ! (length s - 1) \<in> set s" using len by (rule nth_mem)
    fix y assume "y \<in> set s"
    then obtain i where "i < length s" "y = s ! i"
      by (auto simp: in_set_conv_nth)
    then show "y \<le> s ! (length s - 1)"
      using sorted_nth_mono [OF assms(1), of i "length s - 1"] by simp
  qed
  then show ?thesis by simp
qed

lemma sort_not_Nil: "xs \<noteq> [] \<Longrightarrow> sort xs \<noteq> []"
  by (metis length_0_conv length_sort)

lemma sort_first_Min:
  fixes xs :: "int list"
  shows "xs \<noteq> [] \<Longrightarrow> sort xs ! 0 = Min (set xs)"
  using sorted_first_Min [of "sort xs"] by (simp add: sort_not_Nil)

lemma sort_last_Max:
  fixes xs :: "int list"
  shows "xs \<noteq> [] \<Longrightarrow> sort xs ! (length xs - 1) = Max (set xs)"
  using sorted_last_Max [of "sort xs"] by (simp add: sort_not_Nil)

lemma quantile_first: "xs \<noteq> [] \<Longrightarrow> quantile xs q 0 = of_int (Min (set xs))"
  by (simp add: quantile_def interpolate_whole sort_first_Min)

lemma quantile_last:
  assumes "xs \<noteq> []" "0 < q"
  shows "quantile xs q q = of_int (Max (set xs))"
proof -
  have m: "(length xs - 1) * q mod q = 0" by simp
  have d: "(length xs - 1) * q div q = length xs - 1" using assms(2) by simp
  show ?thesis
    unfolding quantile_def interpolate_whole [OF m] d sort_last_Max [OF assms(1)] ..
qed

lemma position_in_range:
  fixes p q n :: nat
  assumes "0 < q" "0 < n" "p \<le> (n - 1) * q"
  shows "p div q + 1 < n \<or> (p mod q = 0 \<and> p div q < n)"
proof (cases "p div q + 1 < n")
  case True then show ?thesis by simp
next
  case False
  have "p div q \<le> ((n - 1) * q) div q" using assms(3) by (rule div_le_mono)
  then have le: "p div q \<le> n - 1" using assms(1) by simp
  with False assms(2) have eq: "p div q = n - 1" by simp
  have "p = q * (p div q) + p mod q" by simp
  with eq assms(3) have "p mod q = 0"
    by (metis add_diff_cancel_left' diff_is_0_eq' mult.commute)
  with eq assms(2) show ?thesis by simp
qed

lemma quantile_position:
  assumes "xs \<noteq> []" "0 < q" "k \<le> q"
  shows "(length xs - 1) * k div q + 1 < length (sort xs)
      \<or> ((length xs - 1) * k mod q = 0 \<and> (length xs - 1) * k div q < length (sort xs))"
proof -
  have pos: "0 < length (sort xs)" using assms(1) by simp
  have "(length xs - 1) * k \<le> (length (sort xs) - 1) * q" using assms(3) by simp
  from position_in_range [OF assms(2) pos this] show ?thesis .
qed

lemma quantile_mono:
  assumes "xs \<noteq> []" "0 < q" "k \<le> k'" "k' \<le> q"
  shows "quantile xs q k \<le> quantile xs q k'"
  unfolding quantile_def
proof (rule interpolate_mono)
  show "sorted (sort xs)" by simp
  show "0 < q" by fact
  show "(length xs - 1) * k \<le> (length xs - 1) * k'" using assms(3) by simp
  show "(length xs - 1) * k' div q + 1 < length (sort xs)
      \<or> ((length xs - 1) * k' mod q = 0 \<and> (length xs - 1) * k' div q < length (sort xs))"
    using assms by (intro quantile_position)
qed


lemma quantile_bounds:
  assumes "xs \<noteq> []" "0 < q" "k \<le> q"
  shows "of_int (Min (set xs)) \<le> quantile xs q k" "quantile xs q k \<le> of_int (Max (set xs))"
  using quantile_mono [OF assms(1,2), of 0 k] quantile_mono [OF assms(1,2), of k q] assms
  by (simp_all add: quantile_first quantile_last)

subsection \<open>The six edges of a quintile cut\<close>







subsection \<open>Bin numbers of the cells of a column\<close>










subsection \<open>Scoring one column\<close>







subsection \<open>Ranks by first occurrence\<close>















subsection \<open>When the edges of a cut are distinct\<close>




subsection \<open>The shape of the scored frame\<close>



lemma with_scores_fields [simp]:
  "rfm_user_id (with_scores row r f m) = rfm_user_id row"
  "Recency (with_scores row r f m) = Recency row"
  "Frequency (with_scores row r f m) = Frequency row"
  "Monetary (with_scores row r f m) = Monetary row"
  "R_Score (with_scores row r f m) = r"
  "F_Score (with_scores row r f m) = f"
  "M_Score (with_scores row r f m) = m"
  by (simp_all add: with_scores_def)


subsection \<open>Direction of the scores\<close>





















subsection \<open>Bin sizes of a column without ties\<close>










subsection \<open>Bucket sizes of the score columns\<close>















section \<open>Properties of the key figures and of the whole run\<close>

lemma with_segment_fields [simp]:
  "rfm_user_id (with_segment row) = rfm_user_id row"
  "Recency (with_segment row) = Recency row"
  "Frequency (with_segment row) = Frequency row"
  "Monetary (with_segment row) = Monetary row"
  "R_Score (with_segment row) = R_Score row"
  "F_Score (with_segment row) = F_Score row"
  "M_Score (with_segment row) = M_Score row"
  "Segment (with_segment row) = segment row"
  by (simp_all add: with_segment_def)








lemma five_orders_run: "run five_orders (day 10) = Inr five_analysis"
  by code_simp



subsection \<open>The dependency ratio\<close>






subsection \<open>Failure of the scoring\<close>








subsection \<open>Independence of the run from anything but its inputs\<close>



subsection \<open>Fields that the run does not read\<close>

lemma group_column:
  "map f (filter (\<lambda>r. g r = k) xs)
     = map snd (filter (\<lambda>p. fst p = k) (zip (map g xs) (map f xs)))"
  by (induction xs) auto

lemma group_size:
  "length (filter (\<lambda>r. g r = k) xs) = length (filter (\<lambda>u. u = k) (map g xs))"
  by (induction xs) auto

lemma rfm_reads_three_columns:
  fixes df df' :: "('u::linorder, 'o) order_record list"
  assumes u: "map user_id df' = map user_id df"
    and d: "map order_date df' = map order_date df"
    and v: "map order_value df' = map order_value df"
  shows "rfm df' s = rfm df s"
proof -
  have k: "group_keys df' = group_keys df" by (simp add: group_keys_def u)
  have a: "\<And>k. map order_date (group_rows df' k) = map order_date (group_rows df k)"
    by (simp only: group_rows_def group_column [of order_date user_id] u d)
  have b: "\<And>k. map order_value (group_rows df' k) = map order_value (group_rows df k)"
    by (simp only: group_rows_def group_column [of order_value user_id] u v)
  have c: "\<And>k. length (group_rows df' k) = length (group_rows df k)"
    by (simp only: group_rows_def group_size [of user_id] u)
  show ?thesis by (simp add: rfm_def Let_def k a b c)
qed

text \<open>
  C10. Two tables that agree, row by row, in customer identifier, order identifier,
  order date and order value (so that they differ at most in product names and
  discounts) give the same metrics, the same scored frame and the same outcome of the
  run: the same segments and key figures, or the same error.
\<close>

theorem unused_fields_do_not_interfere:
  fixes df df' :: "('u::linorder, 'o) order_record list"
  assumes "map user_id df' = map user_id df"
    and "map order_id df' = map order_id df"
    and "map order_date df' = map order_date df"
    and "map order_value df' = map order_value df"
  shows "rfm df' snapshot_date = rfm df snapshot_date
       \<and> add_scores (rfm df' snapshot_date) = add_scores (rfm df snapshot_date)
       \<and> run df' snapshot_date = run df snapshot_date"
proof -
  have "rfm df' snapshot_date = rfm df snapshot_date"
    by (rule rfm_reads_three_columns [OF assms(1,3,4)])
  then show ?thesis by (simp add: run_def)
qed

lemma relabelled_columns:
  "map user_id five_orders_relabelled = map user_id five_orders"
  "map order_id five_orders_relabelled = map order_id five_orders"
  "map order_date five_orders_relabelled = map order_date five_orders"
  "map order_value five_orders_relabelled = map order_value five_orders"
  by (simp_all add: five_orders_relabelled_def)

theorem unused_fields_do_not_interfere_witness:
  "map user_id five_orders_relabelled = map user_id five_orders
   \<and> map order_id five_orders_relabelled = map order_id five_orders
   \<and> map order_date five_orders_relabelled = map order_date five_orders
   \<and> map order_value five_orders_relabelled = map order_value five_orders
   \<and> map discount_given five_orders_relabelled \<noteq> map discount_given five_orders
   \<and> run five_orders_relabelled (day 10) = Inr five_analysis"
proof -
  note t = unused_fields_do_not_interfere [OF relabelled_columns, of "day 10"]
  have d: "map discount_given five_orders_relabelled \<noteq> map discount_given five_orders"
    by (simp add: five_orders_relabelled_def five_orders_def order_on_def)
  from t d relabelled_columns five_orders_run show ?thesis by simp
qed

end
